theory Spec2Isabelle
  imports Main
begin

section \<open>Values of the request and of the store\<close>

text \<open>
  The routes of \<^verbatim>\<open>routes/inventory.js\<close> read a parsed JSON body. A JSON value is one of
  the constructors below; a field that is absent from an object is \<open>None\<close>
  (JavaScript's \<^verbatim>\<open>undefined\<close>); an array is read as the object of its indices, which
  is what truthiness and the lookup of a named field see. A JavaScript number is an IEEE double; \<open>JNum n\<close> is the
  double whose value is the integer \<open>n\<close>. Numbers with a fractional part and the
  infinities (\<^verbatim>\<open>1e400\<close>) have no constructor, so every statement about arithmetic below
  is a statement about integer-valued numbers, and says in which range.
\<close>

datatype jv = JNull | JBool bool | JNum int | JStr string | JObj "(string \<times> jv) list"

type_synonym jobject = "(string \<times> jv) list"

text \<open>JavaScript's truthiness, as \<^verbatim>\<open>!x\<close>, \<^verbatim>\<open>if (x)\<close> and \<^verbatim>\<open>x || y\<close> test it.\<close>

fun truthy :: "jv \<Rightarrow> bool" where
  "truthy JNull = False"
| "truthy (JBool b) = b"
| "truthy (JNum n) = (n \<noteq> 0)"
| "truthy (JStr s) = (s \<noteq> [])"
| "truthy (JObj kvs) = True"

fun truthy_opt :: "jv option \<Rightarrow> bool" where
  "truthy_opt None = False"
| "truthy_opt (Some v) = truthy v"

text \<open>\<^verbatim>\<open>a || b\<close> where \<open>b\<close> is a defined value.\<close>

fun js_or :: "jv option \<Rightarrow> jv \<Rightarrow> jv" where
  "js_or None d = d"
| "js_or (Some v) d = (if truthy v then v else d)"

text \<open>\<^verbatim>\<open>a || b\<close> where \<open>b\<close> may be undefined too.\<close>

fun js_or_opt :: "jv option \<Rightarrow> jv option \<Rightarrow> jv option" where
  "js_or_opt None d = d"
| "js_or_opt (Some v) d = (if truthy v then Some v else d)"

text \<open>A destructuring default \<^verbatim>\<open>x = d\<close>: only \<^verbatim>\<open>undefined\<close> takes the default.\<close>

fun js_default :: "jv option \<Rightarrow> jv \<Rightarrow> jv" where
  "js_default None d = d"
| "js_default (Some v) d = v"

text \<open>An object literal handed to \<^verbatim>\<open>JSON.stringify\<close>: undefined fields are left out.\<close>

fun obj_fields :: "(string \<times> jv option) list \<Rightarrow> jobject" where
  "obj_fields [] = []"
| "obj_fields ((k, None) # kvs) = obj_fields kvs"
| "obj_fields ((k, Some v) # kvs) = (k, v) # obj_fields kvs"

subsection \<open>Addition of doubles\<close>

text \<open>
  Every integer up to \<open>2^53\<close> in absolute value is a double. A larger integer (below
  \<open>2^1024\<close>) is rounded to 53 significant bits, to the nearest, and to the even one of
  two that are equally near.
\<close>

definition in_exact_range :: "int \<Rightarrow> bool" where
  "in_exact_range n = (\<bar>n\<bar> \<le> 9007199254740992)"

fun bit_length :: "nat \<Rightarrow> nat" where
  "bit_length n = (if n = 0 then 0 else Suc (bit_length (n div 2)))"

declare bit_length.simps [simp del]

definition double_round :: "int \<Rightarrow> int" where
  "double_round n =
     (if in_exact_range n then n
      else
        let a = nat \<bar>n\<bar>;
            u = 2 ^ (bit_length a - 53);
            q = a div u;
            r = a mod u;
            m = (if u div 2 < r \<or> (r = u div 2 \<and> odd q) then q + 1 else q)
        in sgn n * int (m * u))"

text \<open>
  \<^verbatim>\<open>a + b\<close> on two numbers: the exact sum, rounded. (A sum of \<open>2^1024\<close> or more is
  \<^verbatim>\<open>Infinity\<close> in JavaScript and has no value here.) An integer column read into
  JavaScript is a number too, so the adjust route rounds the stored quantity before it adds.
\<close>

definition js_plus :: "int \<Rightarrow> int \<Rightarrow> int" where
  "js_plus a b = double_round (a + b)"

subsection \<open>parseInt\<close>

definition is_space :: "char \<Rightarrow> bool" where
  "is_space c = (c \<in> set [CHR '' '', CHR 0x09, CHR 0x0A, CHR 0x0B, CHR 0x0C, CHR 0x0D])"

definition digit_of :: "nat \<Rightarrow> char \<Rightarrow> nat option" where
  "digit_of radix c =
     (let n = of_char c :: nat;
          d = (if 48 \<le> n \<and> n \<le> 57 then Some (n - 48)
               else if 97 \<le> n \<and> n \<le> 102 then Some (n - 87)
               else if 65 \<le> n \<and> n \<le> 70 then Some (n - 55)
               else None)
      in case d of None \<Rightarrow> None | Some v \<Rightarrow> if v < radix then Some v else None)"

fun leading_digits :: "nat \<Rightarrow> string \<Rightarrow> nat list" where
  "leading_digits radix [] = []"
| "leading_digits radix (c # cs) =
     (case digit_of radix c of None \<Rightarrow> [] | Some d \<Rightarrow> d # leading_digits radix cs)"

definition digits_value :: "nat \<Rightarrow> string \<Rightarrow> int option" where
  "digits_value radix cs =
     (case leading_digits radix cs of
        [] \<Rightarrow> None
      | ds \<Rightarrow> Some (int (foldl (\<lambda>a d. a * radix + d) 0 ds)))"

definition unsigned_value :: "string \<Rightarrow> int option" where
  "unsigned_value cs =
     (case cs of
        c0 # cx # rest \<Rightarrow>
          if c0 = CHR ''0'' \<and> (cx = CHR ''x'' \<or> cx = CHR ''X'')
          then digits_value 16 rest else digits_value 10 cs
      | _ \<Rightarrow> digits_value 10 cs)"

definition parse_int_string :: "string \<Rightarrow> int option" where
  "parse_int_string s =
     (case dropWhile is_space s of
        [] \<Rightarrow> None
      | c # cs \<Rightarrow>
          if c = CHR ''-'' then map_option uminus (unsigned_value cs)
          else if c = CHR ''+'' then unsigned_value cs
          else unsigned_value (c # cs))"

text \<open>
  \<^verbatim>\<open>parseInt(x)\<close>: \<open>None\<close> is \<^verbatim>\<open>NaN\<close>. An undefined, null, boolean or object argument
  has a string form that starts with no digit. The result is a number, so the digits read
  are rounded to a double. Two things are left as they are: a number of \<open>10^21\<close> or more
  is printed with an exponent before it is parsed, and a string may start with white space
  outside ASCII; the reference check of the add route is the only caller.
\<close>

fun parseInt :: "jv option \<Rightarrow> int option" where
  "parseInt (Some (JNum n)) = Some n"
| "parseInt (Some (JStr s)) = map_option double_round (parse_int_string s)"
| "parseInt _ = None"

section \<open>The store\<close>

text \<open>
  A row of \<^verbatim>\<open>products\<close>. The columns hold the values the statements bind; \<open>quantity\<close>
  is the integer column the adjust route computes with.
\<close>

record product =
  pid :: nat
  product_name :: jv
  sku :: jv
  category_id :: jv
  supplier_id :: jv
  quantity :: int
  price :: jv
  location :: jv

datatype action = ADD | UPDATE | DELETE | QUANTITY_ADJUST

text \<open>A row of \<^verbatim>\<open>inventory_audit\<close>, with the four values \<^verbatim>\<open>logAudit\<close> binds.\<close>

record audit_entry =
  a_product_id :: "nat option"
  a_action :: action
  a_changed_by :: jv
  a_details :: jv

text \<open>What a route does with its connection, in order.\<close>

datatype db_event = GetConnection | BeginTransaction | Commit | Rollback | Release

text \<open>
  Modelled from the spec: the module \<^verbatim>\<open>../db\<close> and the schema of its tables are not
  among the sources. Section 9 of the specification describes \<^verbatim>\<open>db\<close> as the process-wide
  pool of transactional sessions, of which each operation acquires its own (the routes call
  \<^verbatim>\<open>db.getConnection()\<close> for it), and section 6 the tables: products keyed by a generated
  id with a unique constraint on sku, categories and suppliers keyed by id, and an
  append-only audit log. So a statement run on a connection \<^verbatim>\<open>conn\<close> belongs to the
  transaction begun on \<^verbatim>\<open>conn\<close>, and a statement run on the pool itself
  (\<^verbatim>\<open>db.execute\<close>) runs on another session and is committed at once.
  \<open>products\<close>, \<open>categories\<close>, \<open>suppliers\<close> and \<open>inventory_audit\<close> are the committed
  tables; \<open>auto_increment\<close> is the id the next insert receives (it is not given back by a
  rollback); \<open>sku_unique\<close> says whether the sku column carries the constraints the
  specification gives it (section 3: unique, non-null): the table of the specification is
  the one with \<open>sku_unique = True\<close>, and the other one shows what the checks of the routes
  alone achieve; \<open>events\<close> records the calls on
  connections.
\<close>

record store =
  products :: "product list"
  categories :: "int list"
  suppliers :: "int list"
  inventory_audit :: "audit_entry list"
  auto_increment :: nat
  sku_unique :: bool
  events :: "db_event list"

definition empty_store :: "bool \<Rightarrow> store" where
  "empty_store uniq =
     \<lparr>products = [], categories = [], suppliers = [], inventory_audit = [],
      auto_increment = 1, sku_unique = uniq, events = []\<rparr>"

text \<open>
  The failures of the store that do not depend on the data: the append to the audit log
  throws, or \<^verbatim>\<open>conn.commit()\<close> throws.
\<close>

record faults =
  audit_fails :: bool
  commit_fails :: bool

definition no_faults :: faults where
  "no_faults = \<lparr>audit_fails = False, commit_fails = False\<rparr>"

text \<open>
  The four answers of a route that are errors (400, 409, 404, 500), and the one failure that
  is not an answer of the route: a \<^verbatim>\<open>TypeError\<close> thrown by the handler outside its
  \<^verbatim>\<open>try\<close> block.
\<close>

datatype error =
  ValidationError | ConflictError | NotFoundError | StorageError | UncaughtTypeError

definition ev :: "db_event list \<Rightarrow> store \<Rightarrow> store" where
  "ev es s = s\<lparr>events := events s @ es\<rparr>"

text \<open>
  Every exit of a route after \<^verbatim>\<open>beginTransaction\<close> other than the commit: the early
  returns call \<^verbatim>\<open>conn.rollback()\<close> themselves, a thrown error reaches the
  \<^verbatim>\<open>catch\<close> block, which does; \<^verbatim>\<open>finally\<close> releases the connection. The rows the
  transaction wrote are dropped, so the committed tables stay as they are.
\<close>

definition rollback :: "error \<Rightarrow> store \<Rightarrow> (error + 'a) \<times> store" where
  "rollback e s = (Inl e, ev [Rollback, Release] s)"

text \<open>
  \<^verbatim>\<open>await conn.commit()\<close> followed by the response: the rows of the transaction become
  the committed table, unless the commit throws.
\<close>

definition commit :: "faults \<Rightarrow> product list \<Rightarrow> 'a \<Rightarrow> store \<Rightarrow> (error + 'a) \<times> store" where
  "commit f rows r s =
     (if commit_fails f then rollback StorageError s
      else (Inr r, ev [Commit, Release] (s\<lparr>products := rows\<rparr>)))"

subsection \<open>logAudit\<close>

text \<open>
  The first argument of \<^verbatim>\<open>logAudit\<close> is a number (\<^verbatim>\<open>result.insertId\<close>) in the add route
  and a path parameter, a non-empty string, in the others; \<^verbatim>\<open>product_id || null\<close> turns
  the number 0 into null and keeps every path parameter.
\<close>

datatype id_arg = InsertId nat | PathId nat

fun id_or_null :: "id_arg \<Rightarrow> nat option" where
  "id_or_null (InsertId n) = (if n = 0 then None else Some n)"
| "id_or_null (PathId n) = Some n"

text \<open>
  \<^verbatim>\<open>logAudit\<close> runs its INSERT with \<^verbatim>\<open>db.execute\<close>, on the pool, not on the
  connection \<^verbatim>\<open>conn\<close> of the route that calls it: the entry is appended to the committed
  audit table, whatever the route's transaction does afterwards. \<open>None\<close> is the thrown
  error.
\<close>

definition logAudit ::
  "faults \<Rightarrow> id_arg \<Rightarrow> action \<Rightarrow> jv option \<Rightarrow> jv \<Rightarrow> store \<Rightarrow> store option" where
  "logAudit f product_id act changed_by details s =
     (if audit_fails f then None
      else Some (s\<lparr>inventory_audit := inventory_audit s @
             [\<lparr>a_product_id = id_or_null product_id, a_action = act,
               a_changed_by = js_or changed_by (JStr ''system''),
               a_details = details\<rparr>]\<rparr>))"

section \<open>Statements on the connection\<close>

text \<open>
  The statements a route runs on \<^verbatim>\<open>conn\<close> read and write the rows of its transaction,
  a list that starts as the committed table. \<open>None\<close> is a thrown error.
\<close>

text \<open>\<^verbatim>\<open>SELECT id FROM products WHERE sku = ?\<close>\<close>

definition select_by_sku :: "jv \<Rightarrow> product list \<Rightarrow> product list" where
  "select_by_sku k rows = filter (\<lambda>r. sku r = k) rows"

text \<open>\<^verbatim>\<open>SELECT id FROM products WHERE sku = ? AND id <> ?\<close>\<close>

definition select_sku_other :: "jv \<Rightarrow> nat \<Rightarrow> product list \<Rightarrow> product list" where
  "select_sku_other k i rows = filter (\<lambda>r. sku r = k \<and> pid r \<noteq> i) rows"

text \<open>\<^verbatim>\<open>SELECT ... FROM products WHERE id = ?\<close>\<close>

definition select_by_id :: "nat \<Rightarrow> product list \<Rightarrow> product list" where
  "select_by_id i rows = filter (\<lambda>r. pid r = i) rows"

text \<open>\<^verbatim>\<open>SELECT id FROM categories WHERE id = ?\<close> (and suppliers), bound to a \<^verbatim>\<open>parseInt\<close>.\<close>

fun select_ref :: "int option \<Rightarrow> int list \<Rightarrow> int list" where
  "select_ref None ids = []"
| "select_ref (Some i) ids = filter (\<lambda>j. j = i) ids"

text \<open>
  Modelled from the spec: the column types are part of the missing schema; section 3 makes
  quantity an integer. A number is stored as it is, any other bound value is refused by
  the store (the implicit conversions of MySQL are not modelled).
\<close>

fun bind_quantity :: "jv \<Rightarrow> int option" where
  "bind_quantity (JNum n) = Some n"
| "bind_quantity _ = None"

text \<open>
  \<^verbatim>\<open>INSERT INTO products (...) VALUES (?, ?, ?, ?, ?, ?, ?)\<close>: the new row takes the next
  generated id. The statement throws when quantity does not bind, or when the table carries
  the constraints of the sku column and the sku is null or already there.
\<close>

definition insert_product ::
  "bool \<Rightarrow> nat \<Rightarrow> jv \<Rightarrow> jv \<Rightarrow> jv \<Rightarrow> jv \<Rightarrow> jv \<Rightarrow> jv \<Rightarrow> jv \<Rightarrow> product list \<Rightarrow> product list option" where
  "insert_product uniq new_id nm k cat_v sup_v qty prc loc rows =
     (case bind_quantity qty of
        None \<Rightarrow> None
      | Some q \<Rightarrow>
          if uniq \<and> (k = JNull \<or> select_by_sku k rows \<noteq> []) then None
          else Some (rows @ [\<lparr>pid = new_id, product_name = nm, sku = k, category_id = cat_v,
                              supplier_id = sup_v, quantity = q, price = prc, location = loc\<rparr>]))"

text \<open>One assignment \<^verbatim>\<open>key = ?\<close> of an UPDATE, on one row.\<close>

definition set_column :: "string \<Rightarrow> jv \<Rightarrow> product \<Rightarrow> product option" where
  "set_column key v r =
     (if key = ''product_name'' then Some (r\<lparr>product_name := v\<rparr>)
      else if key = ''sku'' then Some (r\<lparr>sku := v\<rparr>)
      else if key = ''category_id'' then Some (r\<lparr>category_id := v\<rparr>)
      else if key = ''supplier_id'' then Some (r\<lparr>supplier_id := v\<rparr>)
      else if key = ''quantity'' then map_option (\<lambda>q. r\<lparr>quantity := q\<rparr>) (bind_quantity v)
      else if key = ''price'' then Some (r\<lparr>price := v\<rparr>)
      else if key = ''location'' then Some (r\<lparr>location := v\<rparr>)
      else None)"

fun set_columns :: "(string \<times> jv) list \<Rightarrow> product \<Rightarrow> product option" where
  "set_columns [] r = Some r"
| "set_columns ((key, v) # kvs) r =
     (case set_column key v r of None \<Rightarrow> None | Some r' \<Rightarrow> set_columns kvs r')"

text \<open>The assignments applied to every row with the given id; the other rows stay.\<close>

fun update_where_id :: "(string \<times> jv) list \<Rightarrow> nat \<Rightarrow> product list \<Rightarrow> product list option" where
  "update_where_id kvs i [] = Some []"
| "update_where_id kvs i (r # rows) =
     (case (if pid r = i then set_columns kvs r else Some r) of
        None \<Rightarrow> None
      | Some r' \<Rightarrow> map_option ((#) r') (update_where_id kvs i rows))"

text \<open>
  \<^verbatim>\<open>UPDATE products SET k1 = ?, ... WHERE id = ?\<close>, with \<^verbatim>\<open>affectedRows\<close>, the number
  of rows the WHERE clause matches. The statement throws when a value does not bind, or
  when the table carries the constraints of the sku column, the sku is assigned in some row
  and it is null or the result would hold it twice.
\<close>

definition exec_update ::
  "bool \<Rightarrow> (string \<times> jv) list \<Rightarrow> nat \<Rightarrow> product list \<Rightarrow> (product list \<times> nat) option" where
  "exec_update uniq kvs i rows =
     (case update_where_id kvs i rows of
        None \<Rightarrow> None
      | Some rows' \<Rightarrow>
          let affected = length (select_by_id i rows) in
          (case map_of kvs ''sku'' of
             Some k \<Rightarrow>
               if uniq \<and> affected \<noteq> 0 \<and> (k = JNull \<or> 1 < length (select_by_sku k rows'))
               then None
               else Some (rows', affected)
           | None \<Rightarrow> Some (rows', affected)))"

text \<open>\<^verbatim>\<open>DELETE FROM products WHERE id = ?\<close>\<close>

definition delete_where_id :: "nat \<Rightarrow> product list \<Rightarrow> product list" where
  "delete_where_id i rows = filter (\<lambda>r. pid r \<noteq> i) rows"

section \<open>The routes\<close>

subsection \<open>POST /: add a product\<close>

text \<open>
  The reference check the add route makes twice, for the category and for the supplier:
  \<^verbatim>\<open>parseInt\<close>, the SELECT by id, and the id itself when a row came back, null otherwise.
\<close>

definition valid_ref :: "jv option \<Rightarrow> int list \<Rightarrow> jv" where
  "valid_ref raw ids =
     (let parsed = parseInt raw;
          existing = select_ref parsed ids
      in case parsed of
           Some c \<Rightarrow> if existing \<noteq> [] then JNum c else JNull
         | None \<Rightarrow> JNull)"

text \<open>
  The body of the \<^verbatim>\<open>try\<close> block once the duplicate check has passed: the two reference
  lookups, the insert, the audit entry, the commit. The generated id is used up by the
  insert even when the transaction is rolled back.
\<close>

definition add_insert ::
  "faults \<Rightarrow> jv \<Rightarrow> jv \<Rightarrow> jv option \<Rightarrow> jv option \<Rightarrow> jv \<Rightarrow> jv \<Rightarrow> jv option \<Rightarrow> jv option
     \<Rightarrow> store \<Rightarrow> (error + nat) \<times> store" where
  "add_insert f nm k cat_in sup_in qty prc loc changed_by s =
     (let validCategoryId = valid_ref cat_in (categories s);
          validSupplierId = valid_ref sup_in (suppliers s);
          newId = auto_increment s
      in case insert_product (sku_unique s) newId nm k validCategoryId validSupplierId
                (js_or (Some qty) (JNum 0)) (js_or (Some prc) (JNum 0)) (js_or loc JNull)
                (products s) of
           None \<Rightarrow> rollback StorageError s
         | Some rows \<Rightarrow>
             let s1 = s\<lparr>auto_increment := Suc newId\<rparr> in
             (case logAudit f (InsertId newId) ADD changed_by
                     (JObj (obj_fields [(''product_name'', Some nm), (''sku'', Some k),
                        (''quantity'', Some qty), (''price'', Some prc), (''location'', loc)])) s1 of
                None \<Rightarrow> rollback StorageError s1
              | Some s2 \<Rightarrow> commit f rows newId s2))"

definition add_product :: "faults \<Rightarrow> jobject \<Rightarrow> store \<Rightarrow> (error + nat) \<times> store" where
  "add_product f body s =
     (let qty = js_default (map_of body ''quantity'') (JNum 0);
          prc = js_default (map_of body ''price'') (JNum 0)
      in case (map_of body ''product_name'', map_of body ''sku'') of
           (Some nm, Some k) \<Rightarrow>
             if \<not> truthy nm \<or> \<not> truthy k then (Inl ValidationError, s)
             else
               let s1 = ev [GetConnection, BeginTransaction] s in
               if select_by_sku k (products s1) \<noteq> [] then rollback ConflictError s1
               else add_insert f nm k (map_of body ''category_id'') (map_of body ''supplier_id'')
                      qty prc (map_of body ''location'') (map_of body ''changed_by'') s1
         | _ \<Rightarrow> (Inl ValidationError, s))"

subsection \<open>PUT /:id: update a product\<close>

definition allowed :: "string list" where
  "allowed = [''product_name'', ''sku'', ''category_id'', ''supplier_id'', ''quantity'',
              ''price'', ''location'']"

text \<open>
  \<^verbatim>\<open>req.body.hasOwnProperty(key)\<close>: the method is looked up on the body itself. A body
  with a field of its own named \<^verbatim>\<open>hasOwnProperty\<close> hides the method of
  \<^verbatim>\<open>Object.prototype\<close> behind a JSON value, which is not a function, and the call throws
  a \<^verbatim>\<open>TypeError\<close> (\<open>None\<close>).
\<close>

definition hasOwnProperty :: "jobject \<Rightarrow> string \<Rightarrow> bool option" where
  "hasOwnProperty body key =
     (case map_of body ''hasOwnProperty'' of
        Some v \<Rightarrow> None
      | None \<Rightarrow> Some (map_of body key \<noteq> None))"

text \<open>
  The loop over \<^verbatim>\<open>allowed\<close>: the assignments, in the order of the list; \<open>None\<close> when
  the loop throws.
\<close>

fun collect_updates :: "string list \<Rightarrow> jobject \<Rightarrow> (string \<times> jv) list option" where
  "collect_updates [] body = Some []"
| "collect_updates (key # keys) body =
     (case hasOwnProperty body key of
        None \<Rightarrow> None
      | Some False \<Rightarrow> collect_updates keys body
      | Some True \<Rightarrow>
          (case map_of body key of
             None \<Rightarrow> collect_updates keys body
           | Some v \<Rightarrow> map_option ((#) (key, v)) (collect_updates keys body)))"

text \<open>
  The loop stands before \<^verbatim>\<open>db.getConnection()\<close> and before the \<^verbatim>\<open>try\<close> block: when
  it throws, the handler ends there, no statement has run and the route sends none of its
  answers.
\<close>

definition update_product :: "faults \<Rightarrow> nat \<Rightarrow> jobject \<Rightarrow> store \<Rightarrow> (error + unit) \<times> store" where
  "update_product f i body s =
     (let changed_by = js_or (map_of body ''changed_by'') (JStr ''unknown'') in
      case collect_updates allowed body of
        None \<Rightarrow> (Inl UncaughtTypeError, s)
      | Some updates \<Rightarrow>
         if updates = [] then (Inl ValidationError, s)
         else
           let s1 = ev [GetConnection, BeginTransaction] s in
           if truthy_opt (map_of body ''sku'') \<and>
              (case map_of body ''sku'' of
                 Some k \<Rightarrow> select_sku_other k i (products s1) \<noteq> [] | None \<Rightarrow> False)
           then rollback ConflictError s1
           else
             (case exec_update (sku_unique s1) updates i (products s1) of
                None \<Rightarrow> rollback StorageError s1
              | Some (rows, affectedRows) \<Rightarrow>
                  if affectedRows = 0 then rollback NotFoundError s1
                  else
                    (case logAudit f (PathId i) UPDATE (Some changed_by)
                            (JObj [(''updated_fields'', JObj body)]) s1 of
                       None \<Rightarrow> rollback StorageError s1
                     | Some s2 \<Rightarrow> commit f rows () s2)))"

subsection \<open>DELETE /:id: delete a product\<close>

text \<open>
  The request may have no body at all (\<^verbatim>\<open>req.body?.changed_by\<close>); the actor may also
  come from the query string.
\<close>

definition delete_product ::
  "faults \<Rightarrow> nat \<Rightarrow> jobject option \<Rightarrow> jv option \<Rightarrow> store \<Rightarrow> (error + unit) \<times> store" where
  "delete_product f i body query_changed_by s =
     (let changed_by =
            js_or (js_or_opt (case body of None \<Rightarrow> None | Some b \<Rightarrow> map_of b ''changed_by'')
                     query_changed_by) (JStr ''unknown'');
          s1 = ev [GetConnection, BeginTransaction] s
      in case select_by_id i (products s1) of
           [] \<Rightarrow> rollback NotFoundError s1
         | found # _ \<Rightarrow>
             let rows = delete_where_id i (products s1) in
             (case logAudit f (PathId i) DELETE (Some changed_by)
                     (JObj [(''product_name'', product_name found), (''sku'', sku found)]) s1 of
                None \<Rightarrow> rollback StorageError s1
              | Some s2 \<Rightarrow> commit f rows () s2))"

subsection \<open>POST /:id/adjust: adjust the quantity\<close>

definition adjust_quantity ::
  "faults \<Rightarrow> nat \<Rightarrow> jobject \<Rightarrow> store \<Rightarrow> (error + int) \<times> store" where
  "adjust_quantity f i body s =
     (case map_of body ''delta'' of
        Some (JNum delta) \<Rightarrow>
          let s1 = ev [GetConnection, BeginTransaction] s in
          (case select_by_id i (products s1) of
             [] \<Rightarrow> rollback NotFoundError s1
           | row0 # _ \<Rightarrow>
               let newQty0 = js_plus (double_round (quantity row0)) delta;
                   newQty = (if newQty0 < 0 then 0 else newQty0)
               in (case exec_update (sku_unique s1) [(''quantity'', JNum newQty)] i (products s1) of
                     None \<Rightarrow> rollback StorageError s1
                   | Some (rows, _) \<Rightarrow>
                       (case logAudit f (PathId i) QUANTITY_ADJUST
                               (Some (js_or (map_of body ''changed_by'') (JStr ''unknown'')))
                               (JObj [(''delta'', JNum delta), (''new_quantity'', JNum newQty)]) s1 of
                          None \<Rightarrow> rollback StorageError s1
                        | Some s2 \<Rightarrow> commit f rows newQty s2)))
      | _ \<Rightarrow> (Inl ValidationError, s))"

text \<open>The quantity stored for an id: that of the row a SELECT by id returns first.\<close>

definition stored_quantity :: "store \<Rightarrow> nat \<Rightarrow> int option" where
  "stored_quantity s i =
     (case select_by_id i (products s) of [] \<Rightarrow> None | r # _ \<Rightarrow> Some (quantity r))"

section \<open>Sequences of calls and the scenarios of the specification\<close>

text \<open>The delta a body carries, for a body the adjust route accepts.\<close>

definition delta_of :: "jobject \<Rightarrow> int" where
  "delta_of body = (case map_of body ''delta'' of Some (JNum d) \<Rightarrow> d | _ \<Rightarrow> 0)"

text \<open>
  Calls of the adjust route on one product, one after the other (the row lock serializes
  them); \<open>Some\<close> when every call succeeded.
\<close>

fun run_adjusts :: "nat \<Rightarrow> (faults \<times> jobject) list \<Rightarrow> store \<Rightarrow> store option" where
  "run_adjusts i [] s = Some s"
| "run_adjusts i ((f, body) # calls) s =
     (case adjust_quantity f i body s of
        (Inr q, s') \<Rightarrow> run_adjusts i calls s'
      | (Inl e, s') \<Rightarrow> None)"

text \<open>The deltas added one at a time, with the floor at zero after each.\<close>

fun clamped_sum :: "int \<Rightarrow> int list \<Rightarrow> int" where
  "clamped_sum q [] = q"
| "clamped_sum q (d # ds) = clamped_sum (max 0 (q + d)) ds"

text \<open>The running total \<open>q, q + d1, q + d1 + d2, ...\<close> never goes below zero.\<close>

fun never_negative :: "int \<Rightarrow> int list \<Rightarrow> bool" where
  "never_negative q [] = (0 \<le> q)"
| "never_negative q (d # ds) = (0 \<le> q \<and> never_negative (q + d) ds)"

text \<open>
  The quantity, every delta and every sum the calls compute stay in the range in which
  integers are doubles and their addition is exact: \<open>q + d1\<close>, then the floored result
  plus \<open>d2\<close>, and so on.
\<close>

fun exact_run :: "int \<Rightarrow> int list \<Rightarrow> bool" where
  "exact_run q [] = True"
| "exact_run q (d # ds) =
     (in_exact_range q \<and> in_exact_range d \<and> in_exact_range (q + d) \<and>
      exact_run (max 0 (q + d)) ds)"

text \<open>The fields of the allow-list that a body has, in the order of the list.\<close>

fun submitted :: "string list \<Rightarrow> jobject \<Rightarrow> (string \<times> jv) list" where
  "submitted [] body = []"
| "submitted (key # keys) body =
     (case map_of body key of
        None \<Rightarrow> submitted keys body
      | Some v \<Rightarrow> (key, v) # submitted keys body)"

text \<open>The four mutating routes as one request type, and a server that takes them in turn.\<close>

datatype request =
    Add jobject
  | Update nat jobject
  | Delete nat "jobject option" "jv option"
  | Adjust nat jobject

fun handle :: "faults \<Rightarrow> request \<Rightarrow> store \<Rightarrow> store" where
  "handle f (Add body) s = snd (add_product f body s)"
| "handle f (Update i body) s = snd (update_product f i body s)"
| "handle f (Delete i body q) s = snd (delete_product f i body q s)"
| "handle f (Adjust i body) s = snd (adjust_quantity f i body s)"

fun serve :: "(faults \<times> request) list \<Rightarrow> store \<Rightarrow> store" where
  "serve [] s = s"
| "serve ((f, r) # rs) s = serve rs (handle f r s)"

text \<open>The bodies and stores of the scenarios, each store reached from the empty one.\<close>

definition widget :: jobject where
  "widget = [(''product_name'', JStr ''Widget''), (''sku'', JStr ''SKU-1''), (''quantity'', JNum 5)]"

definition gadget :: jobject where
  "gadget = [(''product_name'', JStr ''Gadget''), (''sku'', JStr ''SKU-2'')]"

definition negative_widget :: jobject where
  "negative_widget =
     [(''product_name'', JStr ''Widget''), (''sku'', JStr ''SKU-1''), (''quantity'', JNum (- 5))]"

definition widget_store :: "bool \<Rightarrow> store" where
  "widget_store uniq = snd (add_product no_faults widget (empty_store uniq))"

definition two_products :: "bool \<Rightarrow> store" where
  "two_products uniq = snd (add_product no_faults gadget (widget_store uniq))"

definition blank_sku :: jobject where
  "blank_sku = [(''sku'', JStr [])]"

definition blank_sku_store :: "bool \<Rightarrow> store" where
  "blank_sku_store uniq = snd (update_product no_faults 1 blank_sku (two_products uniq))"

definition blank_sku_requests :: "(faults \<times> request) list" where
  "blank_sku_requests =
     [(no_faults, Add widget), (no_faults, Add gadget),
      (no_faults, Update 1 blank_sku), (no_faults, Update 2 blank_sku)]"

definition shadowed_update :: jobject where
  "shadowed_update = [(''hasOwnProperty'', JNum 1), (''quantity'', JNum 20)]"

definition shadowed_only :: jobject where
  "shadowed_only = [(''hasOwnProperty'', JNum 1)]"

definition shadowed_sku :: jobject where
  "shadowed_sku = [(''hasOwnProperty'', JNum 1), (''sku'', JStr ''SKU-1'')]"

definition big_delta :: jobject where
  "big_delta = [(''delta'', JNum 9007199254740992)]"

definition commit_fault :: faults where
  "commit_fault = \<lparr>audit_fails = False, commit_fails = True\<rparr>"

definition down_then_up :: "(faults \<times> jobject) list" where
  "down_then_up = [(no_faults, [(''delta'', JNum (- 8))]), (no_faults, [(''delta'', JNum 3)])]"

definition up_then_down :: "(faults \<times> jobject) list" where
  "up_then_down = [(no_faults, [(''delta'', JNum 3)]), (no_faults, [(''delta'', JNum (- 8))])]"

definition small_moves :: "(faults \<times> jobject) list" where
  "small_moves = [(no_faults, [(''delta'', JNum (- 2))]), (no_faults, [(''delta'', JNum 4)])]"

section \<open>Basic facts\<close>

lemmas route_defs =
  add_product_def add_insert_def update_product_def delete_product_def adjust_quantity_def
  insert_product_def exec_update_def select_by_sku_def select_sku_other_def select_by_id_def
  delete_where_id_def set_column_def logAudit_def commit_def rollback_def ev_def allowed_def
  valid_ref_def no_faults_def empty_store_def hasOwnProperty_def js_plus_def double_round_def
  in_exact_range_def Let_def

lemma double_round_exact: "in_exact_range n \<Longrightarrow> double_round n = n"
  by (simp add: double_round_def)

lemma js_plus_exact: "in_exact_range (a + b) \<Longrightarrow> js_plus a b = a + b"
  by (simp add: js_plus_def double_round_exact)

lemma ev_fields [simp]:
  "products (ev es s) = products s"
  "inventory_audit (ev es s) = inventory_audit s"
  "categories (ev es s) = categories s"
  "suppliers (ev es s) = suppliers s"
  "auto_increment (ev es s) = auto_increment s"
  "sku_unique (ev es s) = sku_unique s"
  "events (ev es s) = events s @ es"
  by (simp_all add: ev_def)

lemma rollback_simps [simp]:
  "fst (rollback e s) = Inl e"
  "products (snd (rollback e s)) = products s"
  "inventory_audit (snd (rollback e s)) = inventory_audit s"
  "events (snd (rollback e s)) = events s @ [Rollback, Release]"
  by (simp_all add: rollback_def)

lemma commit_ok [simp]:
  "\<not> commit_fails f \<Longrightarrow>
     commit f rows r s = (Inr r, ev [Commit, Release] (s\<lparr>products := rows\<rparr>))"
  by (simp add: commit_def)

lemma commit_fail [simp]:
  "commit_fails f \<Longrightarrow> commit f rows r s = rollback StorageError s"
  by (simp add: commit_def)

lemma logAudit_ok:
  "\<not> audit_fails f \<Longrightarrow> logAudit f a act cb d s =
     Some (s\<lparr>inventory_audit := inventory_audit s @
             [\<lparr>a_product_id = id_or_null a, a_action = act,
               a_changed_by = js_or cb (JStr ''system''), a_details = d\<rparr>]\<rparr>)"
  by (simp add: logAudit_def)

lemma logAudit_None [simp]: "(logAudit f a act cb d s = None) = audit_fails f"
  by (simp add: logAudit_def)

lemma logAudit_Some:
  "logAudit f a act cb d s = Some s' \<Longrightarrow>
     \<not> audit_fails f \<and> s' = s\<lparr>inventory_audit := inventory_audit s @
             [\<lparr>a_product_id = id_or_null a, a_action = act,
               a_changed_by = js_or cb (JStr ''system''), a_details = d\<rparr>]\<rparr>"
  by (auto simp: logAudit_def split: if_splits)

lemma logAudit_commit_flag [simp]:
  "logAudit (f\<lparr>commit_fails := b\<rparr>) a act cb d s = logAudit f a act cb d s"
  by (simp add: logAudit_def)

subsection \<open>The scenario stores, evaluated\<close>

lemma widget_add:
  "add_product no_faults widget (empty_store uniq) =
    (Inr 1,
     \<lparr>products =
        [\<lparr>pid = 1, product_name = JStr ''Widget'', sku = JStr ''SKU-1'', category_id = JNull,
          supplier_id = JNull, quantity = 5, price = JNum 0, location = JNull\<rparr>],
      categories = [], suppliers = [],
      inventory_audit =
        [\<lparr>a_product_id = Some 1, a_action = ADD, a_changed_by = JStr ''system'',
          a_details = JObj [(''product_name'', JStr ''Widget''), (''sku'', JStr ''SKU-1''),
                            (''quantity'', JNum 5), (''price'', JNum 0)]\<rparr>],
      auto_increment = 2, sku_unique = uniq,
      events = [GetConnection, BeginTransaction, Commit, Release]\<rparr>)"
  by (simp add: route_defs widget_def)

lemma widget_store_rows:
  "products (widget_store uniq) =
     [\<lparr>pid = 1, product_name = JStr ''Widget'', sku = JStr ''SKU-1'', category_id = JNull,
       supplier_id = JNull, quantity = 5, price = JNum 0, location = JNull\<rparr>]"
  "sku_unique (widget_store uniq) = uniq"
  "length (inventory_audit (widget_store uniq)) = 1"
  by (simp_all add: widget_store_def widget_add)

lemma widget_quantity: "stored_quantity (widget_store uniq) 1 = Some 5"
  by (simp add: stored_quantity_def select_by_id_def widget_store_rows)

lemma two_products_rows:
  "products (two_products uniq) =
     [\<lparr>pid = 1, product_name = JStr ''Widget'', sku = JStr ''SKU-1'', category_id = JNull,
       supplier_id = JNull, quantity = 5, price = JNum 0, location = JNull\<rparr>,
      \<lparr>pid = 2, product_name = JStr ''Gadget'', sku = JStr ''SKU-2'', category_id = JNull,
       supplier_id = JNull, quantity = 0, price = JNum 0, location = JNull\<rparr>]"
  "sku_unique (two_products uniq) = uniq"
  "fst (add_product no_faults gadget (widget_store uniq)) = Inr 2"
  by (simp_all add: two_products_def widget_store_def widget_add)
     (simp_all add: route_defs gadget_def)

lemma blank_sku_store_rows:
  "products (blank_sku_store uniq) =
     [\<lparr>pid = 1, product_name = JStr ''Widget'', sku = JStr [], category_id = JNull,
       supplier_id = JNull, quantity = 5, price = JNum 0, location = JNull\<rparr>,
      \<lparr>pid = 2, product_name = JStr ''Gadget'', sku = JStr ''SKU-2'', category_id = JNull,
       supplier_id = JNull, quantity = 0, price = JNum 0, location = JNull\<rparr>]"
  "sku_unique (blank_sku_store uniq) = uniq"
  "fst (update_product no_faults 1 blank_sku (two_products uniq)) = Inr ()"
  by (simp_all add: blank_sku_store_def update_product_def two_products_rows blank_sku_def
      allowed_def hasOwnProperty_def exec_update_def select_by_id_def select_by_sku_def
      set_column_def logAudit_def no_faults_def commit_def ev_def Let_def)

subsection \<open>What a failed and what a successful call leaves behind\<close>

text \<open>
  A call that answers with an error leaves the products table as it was, and the audit
  log too unless it was the commit that failed. A call that succeeds appends exactly one
  audit entry.
\<close>

lemma add_product_failure:
  assumes "fst (add_product f body s) = Inl e"
  shows "products (snd (add_product f body s)) = products s \<and>
         (\<not> commit_fails f \<longrightarrow>
            inventory_audit (snd (add_product f body s)) = inventory_audit s)"
  using assms unfolding add_product_def add_insert_def
  by (auto simp: Let_def commit_def rollback_def ev_def dest!: logAudit_Some
      split: option.splits if_splits prod.splits)

lemma add_product_success:
  assumes "add_product f body s = (Inr n, s')"
  shows "n = auto_increment s \<and>
         (\<exists>row. products s' = products s @ [row] \<and> pid row = n \<and>
            map_of body ''sku'' = Some (sku row) \<and> select_by_sku (sku row) (products s) = []) \<and>
         (\<exists>e. inventory_audit s' = inventory_audit s @ [e] \<and> a_action e = ADD \<and>
            a_product_id e = id_or_null (InsertId n))"
  using assms unfolding add_product_def add_insert_def
  by (auto simp: Let_def commit_def rollback_def ev_def insert_product_def dest!: logAudit_Some
      split: option.splits if_splits prod.splits)

lemma update_product_failure:
  assumes "fst (update_product f i body s) = Inl e"
  shows "products (snd (update_product f i body s)) = products s \<and>
         (\<not> commit_fails f \<longrightarrow>
            inventory_audit (snd (update_product f i body s)) = inventory_audit s)"
  using assms unfolding update_product_def
  by (auto simp: Let_def commit_def rollback_def ev_def dest!: logAudit_Some
      split: option.splits if_splits prod.splits)

lemma update_product_success:
  assumes "update_product f i body s = (Inr u, s')"
  shows "(\<exists>updates n. collect_updates allowed body = Some updates \<and>
            exec_update (sku_unique s) updates i (products s) = Some (products s', n)) \<and>
         (\<exists>e. inventory_audit s' = inventory_audit s @ [e] \<and> a_action e = UPDATE \<and>
            a_product_id e = Some i)"
  using assms unfolding update_product_def
  by (auto simp: Let_def commit_def rollback_def ev_def dest!: logAudit_Some
      split: option.splits if_splits prod.splits)

lemma delete_product_failure:
  assumes "fst (delete_product f i body q s) = Inl e"
  shows "products (snd (delete_product f i body q s)) = products s \<and>
         (\<not> commit_fails f \<longrightarrow>
            inventory_audit (snd (delete_product f i body q s)) = inventory_audit s)"
  using assms unfolding delete_product_def
  by (auto simp: Let_def commit_def rollback_def ev_def dest!: logAudit_Some
      split: option.splits if_splits prod.splits list.splits)

lemma delete_product_success:
  assumes "delete_product f i body q s = (Inr u, s')"
  shows "products s' = delete_where_id i (products s) \<and>
         (\<exists>e. inventory_audit s' = inventory_audit s @ [e] \<and> a_action e = DELETE \<and>
            a_product_id e = Some i)"
  using assms unfolding delete_product_def
  by (auto simp: Let_def commit_def rollback_def ev_def dest!: logAudit_Some
      split: option.splits if_splits prod.splits list.splits)

text \<open>
  A call that would have succeeded, made again with a commit that fails: the answer is a
  storage error and the products table is as before the call, but the audit log is the one
  of the successful call, with the entry of the mutation that did not happen.
\<close>

lemma add_commit_fault:
  assumes "add_product f body s = (Inr n, s')"
  shows "fst (add_product (f\<lparr>commit_fails := True\<rparr>) body s) = Inl StorageError \<and>
         products (snd (add_product (f\<lparr>commit_fails := True\<rparr>) body s)) = products s \<and>
         inventory_audit (snd (add_product (f\<lparr>commit_fails := True\<rparr>) body s)) =
           inventory_audit s'"
  using assms unfolding add_product_def add_insert_def
  by (auto simp: Let_def commit_def rollback_def ev_def dest!: logAudit_Some
      split: option.splits if_splits prod.splits)

lemma update_commit_fault:
  assumes "update_product f i body s = (Inr u, s')"
  shows "fst (update_product (f\<lparr>commit_fails := True\<rparr>) i body s) = Inl StorageError \<and>
         products (snd (update_product (f\<lparr>commit_fails := True\<rparr>) i body s)) = products s \<and>
         inventory_audit (snd (update_product (f\<lparr>commit_fails := True\<rparr>) i body s)) =
           inventory_audit s'"
  using assms unfolding update_product_def
  by (auto simp: Let_def commit_def rollback_def ev_def dest!: logAudit_Some
      split: option.splits if_splits prod.splits)

lemma delete_commit_fault:
  assumes "delete_product f i body q s = (Inr u, s')"
  shows "fst (delete_product (f\<lparr>commit_fails := True\<rparr>) i body q s) = Inl StorageError \<and>
         products (snd (delete_product (f\<lparr>commit_fails := True\<rparr>) i body q s)) = products s \<and>
         inventory_audit (snd (delete_product (f\<lparr>commit_fails := True\<rparr>) i body q s)) =
           inventory_audit s'"
  using assms unfolding delete_product_def
  by (auto simp: Let_def commit_def rollback_def ev_def dest!: logAudit_Some
      split: option.splits if_splits prod.splits list.splits)

subsection \<open>The UPDATE of the adjust route\<close>

lemma update_quantity_rows:
  "update_where_id [(''quantity'', JNum n)] i rows =
     Some (map (\<lambda>r. if pid r = i then r\<lparr>quantity := n\<rparr> else r) rows)"
  by (induction rows) (simp_all add: set_column_def)

lemma select_by_id_set_quantity:
  "select_by_id i (map (\<lambda>r. if pid r = i then r\<lparr>quantity := n\<rparr> else r) rows) =
     map (\<lambda>r. r\<lparr>quantity := n\<rparr>) (select_by_id i rows)"
  by (induction rows) (simp_all add: select_by_id_def)

lemma exec_update_quantity:
  "exec_update uniq [(''quantity'', JNum n)] i rows =
     Some (map (\<lambda>r. if pid r = i then r\<lparr>quantity := n\<rparr> else r) rows,
           length (select_by_id i rows))"
  by (simp add: exec_update_def update_quantity_rows)

lemma adjust_quantity_failure:
  assumes "fst (adjust_quantity f i body s) = Inl e"
  shows "products (snd (adjust_quantity f i body s)) = products s \<and>
         (\<not> commit_fails f \<longrightarrow>
            inventory_audit (snd (adjust_quantity f i body s)) = inventory_audit s)"
  using assms unfolding adjust_quantity_def
  by (auto simp: Let_def commit_def rollback_def ev_def exec_update_quantity dest!: logAudit_Some
      split: option.splits if_splits prod.splits list.splits jv.splits)

lemma adjust_quantity_success:
  assumes "adjust_quantity f i body s = (Inr r, s')" and "stored_quantity s i = Some q"
  shows "r = max 0 (js_plus (double_round q) (delta_of body)) \<and>
         stored_quantity s' i = Some (max 0 (js_plus (double_round q) (delta_of body))) \<and>
         map_of body ''delta'' = Some (JNum (delta_of body))"
  using assms
  unfolding adjust_quantity_def stored_quantity_def delta_of_def
  by (auto simp: Let_def exec_update_quantity select_by_id_set_quantity rollback_def commit_def
       dest!: logAudit_Some split: option.splits jv.splits list.splits if_splits)

lemma adjust_quantity_entry:
  assumes "adjust_quantity f i body s = (Inr n, s')"
  shows "\<exists>e. inventory_audit s' = inventory_audit s @ [e] \<and> a_action e = QUANTITY_ADJUST \<and>
            a_product_id e = Some i"
  using assms unfolding adjust_quantity_def
  by (auto simp: Let_def commit_def rollback_def ev_def exec_update_quantity dest!: logAudit_Some
      split: option.splits if_splits prod.splits list.splits jv.splits)

lemma adjust_commit_fault:
  assumes "adjust_quantity f i body s = (Inr n, s')"
  shows "fst (adjust_quantity (f\<lparr>commit_fails := True\<rparr>) i body s) = Inl StorageError \<and>
         products (snd (adjust_quantity (f\<lparr>commit_fails := True\<rparr>) i body s)) = products s \<and>
         inventory_audit (snd (adjust_quantity (f\<lparr>commit_fails := True\<rparr>) i body s)) =
           inventory_audit s'"
  using assms unfolding adjust_quantity_def
  by (auto simp: Let_def commit_def rollback_def ev_def exec_update_quantity dest!: logAudit_Some
      split: option.splits if_splits prod.splits list.splits jv.splits)

lemma adjust_no_faults:
  "stored_quantity s i = Some q \<Longrightarrow> in_exact_range q \<Longrightarrow> in_exact_range (q + d) \<Longrightarrow>
   \<exists>s1. adjust_quantity no_faults i [(''delta'', JNum d)] s = (Inr (max 0 (q + d)), s1) \<and>
        stored_quantity s1 i = Some (max 0 (q + d))"
  unfolding adjust_quantity_def stored_quantity_def
  by (auto simp: Let_def exec_update_quantity select_by_id_set_quantity logAudit_ok no_faults_def
       js_plus_exact double_round_exact split: list.splits)

lemma run_two_adjusts:
  assumes "stored_quantity s i = Some q"
    and "in_exact_range q" and "in_exact_range (q + a)"
    and "in_exact_range (max 0 (q + a) + b)"
  shows "\<exists>s2. run_adjusts i [(no_faults, [(''delta'', JNum a)]), (no_faults, [(''delta'', JNum b)])] s
                = Some s2 \<and>
              stored_quantity s2 i = Some (max 0 (max 0 (q + a) + b))"
proof -
  have m: "in_exact_range (max 0 (q + a))"
    using assms(3) by (auto simp: in_exact_range_def)
  from adjust_no_faults [OF assms(1,2,3)] obtain s1
    where 1: "adjust_quantity no_faults i [(''delta'', JNum a)] s = (Inr (max 0 (q + a)), s1)"
      and q1: "stored_quantity s1 i = Some (max 0 (q + a))" by blast
  from adjust_no_faults [OF q1 m assms(4)] obtain s2
    where 2: "adjust_quantity no_faults i [(''delta'', JNum b)] s1 =
                (Inr (max 0 (max 0 (q + a) + b)), s2)"
      and q2: "stored_quantity s2 i = Some (max 0 (max 0 (q + a) + b))" by blast
  show ?thesis by (simp add: 1 2 q2)
qed

lemma run_adjusts_quantity:
  "run_adjusts i calls s = Some s' \<Longrightarrow> stored_quantity s i = Some q \<Longrightarrow>
   exact_run q (map (delta_of \<circ> snd) calls) \<Longrightarrow>
     stored_quantity s' i = Some (clamped_sum q (map (delta_of \<circ> snd) calls))"
proof (induction calls arbitrary: s q)
  case Nil
  then show ?case by simp
next
  case (Cons c calls)
  obtain f body where c: "c = (f, body)" by (cases c)
  obtain r s1 where a: "adjust_quantity f i body s = (Inr r, s1)"
    and run: "run_adjusts i calls s1 = Some s'"
    using Cons.prems(1) c by (auto split: prod.splits sum.splits)
  from Cons.prems(3) c have e: "in_exact_range q" "in_exact_range (q + delta_of body)"
    and es: "exact_run (max 0 (q + delta_of body)) (map (delta_of \<circ> snd) calls)"
    by (auto simp: comp_def)
  from adjust_quantity_success [OF a Cons.prems(2)] e
  have "stored_quantity s1 i = Some (max 0 (q + delta_of body))"
    by (simp add: js_plus_exact double_round_exact)
  from Cons.IH [OF run this es] show ?case by (simp add: c)
qed

lemma never_negative_head: "never_negative q ds \<Longrightarrow> 0 \<le> q"
  by (cases ds) simp_all

lemma clamped_sum_never_negative:
  "never_negative q ds \<Longrightarrow> clamped_sum q ds = q + sum_list ds \<and> 0 \<le> q + sum_list ds"
proof (induction ds arbitrary: q)
  case Nil
  then show ?case by simp
next
  case (Cons d ds)
  then have nn: "never_negative (q + d) ds" by simp
  then have "0 \<le> q + d" by (rule never_negative_head)
  then have "max 0 (q + d) = q + d" by simp
  with Cons.IH [OF nn] show ?case by (simp add: add.assoc)
qed

subsection \<open>The loop over the allow-list\<close>

lemma collect_updates_plain:
  "map_of body ''hasOwnProperty'' = None \<Longrightarrow>
     collect_updates keys body = Some (submitted keys body)"
  by (induction keys) (auto simp: hasOwnProperty_def split: option.splits)

lemma collect_updates_shadowed:
  "map_of body ''hasOwnProperty'' = Some v \<Longrightarrow> keys \<noteq> [] \<Longrightarrow>
     collect_updates keys body = None"
  by (cases keys) (simp_all add: hasOwnProperty_def)

lemma collect_updates_Some:
  "collect_updates keys body = Some updates \<Longrightarrow> updates = submitted keys body"
proof (cases "map_of body ''hasOwnProperty''")
  case None
  assume "collect_updates keys body = Some updates"
  with collect_updates_plain [OF None, of keys] show ?thesis by simp
next
  case (Some v)
  assume c: "collect_updates keys body = Some updates"
  show ?thesis
  proof (cases "keys = []")
    case True
    with c show ?thesis by simp
  next
    case False
    from collect_updates_shadowed [OF Some False] c show ?thesis by simp
  qed
qed

lemma map_of_filter_keys:
  "map_of (filter (\<lambda>kv. fst kv \<in> A) body) k = (if k \<in> A then map_of body k else None)"
  by (induction body) auto

lemma submitted_filter:
  "set keys \<subseteq> A \<Longrightarrow>
     submitted keys (filter (\<lambda>kv. fst kv \<in> A) body) = submitted keys body"
  by (induction keys) (auto simp: map_of_filter_keys split: option.splits)

lemma submitted_keys: "fst ` set (submitted keys body) \<subseteq> set keys"
  by (induction keys) (auto split: option.splits)

lemma submitted_Nil:
  "(\<forall>k\<in>set keys. map_of body k = None) \<Longrightarrow> submitted keys body = []"
  by (induction keys) auto

lemma submitted_nonempty:
  "k \<in> set keys \<Longrightarrow> map_of body k = Some v \<Longrightarrow> submitted keys body \<noteq> []"
  by (induction keys) (auto split: option.splits)

lemma submitted_distinct:
  "distinct keys \<Longrightarrow> distinct (map fst (submitted keys body))"
proof (induction keys)
  case Nil
  then show ?case by simp
next
  case (Cons k keys)
  have "fst ` set (submitted keys body) \<subseteq> set keys" by (rule submitted_keys)
  with Cons show ?case by (auto split: option.splits)
qed

subsection \<open>The update route, case by case\<close>

lemma update_product_throws:
  "map_of body ''hasOwnProperty'' = Some v \<Longrightarrow>
     update_product f i body s = (Inl UncaughtTypeError, s)"
proof -
  assume "map_of body ''hasOwnProperty'' = Some v"
  then have "collect_updates allowed body = None"
    by (rule collect_updates_shadowed) (simp add: allowed_def)
  then show ?thesis by (simp add: update_product_def Let_def)
qed

lemma shadowed_sku_throws:
  "update_product f 7 shadowed_sku s = (Inl UncaughtTypeError, s)"
  by (rule update_product_throws [where v = "JNum 1"]) (simp add: shadowed_sku_def)

lemma update_product_result:
  "map_of body ''hasOwnProperty'' = None \<Longrightarrow>
   fst (update_product f i body s) =
     (let updates = submitted allowed body in
      if updates = [] then Inl ValidationError
      else if truthy_opt (map_of body ''sku'') \<and>
              (case map_of body ''sku'' of
                 Some k \<Rightarrow> select_sku_other k i (products s) \<noteq> [] | None \<Rightarrow> False)
      then Inl ConflictError
      else case exec_update (sku_unique s) updates i (products s) of
             None \<Rightarrow> Inl StorageError
           | Some (rows, n) \<Rightarrow>
               if n = 0 then Inl NotFoundError
               else if audit_fails f \<or> commit_fails f then Inl StorageError else Inr ())"
  unfolding update_product_def
  by (auto simp: Let_def logAudit_def commit_def collect_updates_plain split: option.splits)

lemma update_product_rows:
  "map_of body ''hasOwnProperty'' = None \<Longrightarrow>
   products (snd (update_product f i body s)) =
     (case exec_update (sku_unique s) (submitted allowed body) i (products s) of
        Some (rows, n) \<Rightarrow>
          if fst (update_product f i body s) = Inr () then rows else products s
      | None \<Rightarrow> products s)"
  unfolding update_product_def
  by (auto simp: Let_def logAudit_def commit_def ev_def collect_updates_plain
      split: option.splits)

lemma update_product_conflict:
  assumes "map_of body ''hasOwnProperty'' = None"
    and "map_of body ''sku'' = Some k" and "truthy k"
    and "select_sku_other k i (products s) \<noteq> []"
  shows "fst (update_product f i body s) = Inl ConflictError \<and>
         products (snd (update_product f i body s)) = products s \<and>
         inventory_audit (snd (update_product f i body s)) = inventory_audit s"
proof -
  have "submitted allowed body \<noteq> []"
    using assms(2) by (rule submitted_nonempty [rotated]) (simp add: allowed_def)
  then show ?thesis using assms
    by (simp add: update_product_def Let_def collect_updates_plain)
qed

text \<open>
  For a body without a field named \<^verbatim>\<open>hasOwnProperty\<close>: the answer and the resulting
  products table are those for the body with every field outside the allow-list removed; on
  success the rows with the given id are the old ones with the submitted fields of the
  allow-list assigned; and a body with no field of the allow-list is answered with a
  validation error, the store left as it was.
\<close>

lemma update_allow_list:
  assumes h: "map_of body ''hasOwnProperty'' = None"
  shows
  "fst (update_product f i (filter (\<lambda>kv. fst kv \<in> set allowed) body) s) =
     fst (update_product f i body s) \<and>
   products (snd (update_product f i (filter (\<lambda>kv. fst kv \<in> set allowed) body) s)) =
     products (snd (update_product f i body s)) \<and>
   (\<forall>s'. update_product f i body s = (Inr (), s') \<longrightarrow>
      update_where_id (submitted allowed body) i (products s) = Some (products s') \<and>
      fst ` set (submitted allowed body) \<subseteq> set allowed) \<and>
   ((\<forall>k\<in>set allowed. map_of body k = None) \<longrightarrow>
      update_product f i body s = (Inl ValidationError, s))"
proof -
  let ?body' = "filter (\<lambda>kv. fst kv \<in> set allowed) body"
  have "''hasOwnProperty'' \<notin> set allowed" by (simp add: allowed_def)
  then have h': "map_of ?body' ''hasOwnProperty'' = None"
    by (simp add: map_of_filter_keys)
  have c: "submitted allowed ?body' = submitted allowed body"
    by (rule submitted_filter) simp
  have "''sku'' \<in> set allowed" by (simp add: allowed_def)
  then have k: "map_of ?body' ''sku'' = map_of body ''sku''"
    by (simp only: map_of_filter_keys if_True)
  have r: "fst (update_product f i ?body' s) = fst (update_product f i body s)"
    by (simp only: update_product_result [OF h] update_product_result [OF h'] c k)
  have p: "products (snd (update_product f i ?body' s)) =
           products (snd (update_product f i body s))"
    by (simp only: update_product_rows [OF h] update_product_rows [OF h'] c r)
  have a: "\<forall>s'. update_product f i body s = (Inr (), s') \<longrightarrow>
      update_where_id (submitted allowed body) i (products s) = Some (products s') \<and>
      fst ` set (submitted allowed body) \<subseteq> set allowed"
  proof (intro allI impI conjI)
    fix s' assume u: "update_product f i body s = (Inr (), s')"
    then have "fst (update_product f i body s) = Inr ()"
      and "products (snd (update_product f i body s)) = products s'"
      by simp_all
    then show "update_where_id (submitted allowed body) i (products s) = Some (products s')"
      by (auto simp: update_product_rows [OF h] update_product_result [OF h] exec_update_def
          Let_def split: option.splits if_splits)
    show "fst ` set (submitted allowed body) \<subseteq> set allowed"
      by (rule submitted_keys)
  qed
  have v: "(\<forall>k\<in>set allowed. map_of body k = None) \<longrightarrow>
           update_product f i body s = (Inl ValidationError, s)"
    by (auto simp: update_product_def Let_def collect_updates_plain [OF h] dest: submitted_Nil)
  from r p a v show ?thesis by blast
qed

text \<open>
  For a body without a field named \<^verbatim>\<open>hasOwnProperty\<close> and with a truthy sku that some
  product holds: an id that no product has is answered with a conflict, since the sku check
  runs before the UPDATE statement shows that no row has the id.
\<close>

lemma update_conflict_before_not_found:
  assumes "map_of body ''hasOwnProperty'' = None"
    and "map_of body ''sku'' = Some k" and "truthy k"
    and "\<exists>r\<in>set (products s). sku r = k" and "\<forall>r\<in>set (products s). pid r \<noteq> i"
  shows "fst (update_product f i body s) = Inl ConflictError"
proof -
  from assms(4,5) have "select_sku_other k i (products s) \<noteq> []"
    by (auto simp: select_sku_other_def filter_empty_conv)
  with assms(1,2,3) show ?thesis by (simp add: update_product_conflict)
qed

subsection \<open>What the UPDATE statement assigns\<close>

text \<open>
  Row by row: a row with another id stays as it is; in a row with the given id every
  submitted field of the allow-list holds the submitted value (the quantity the number that
  was bound), every other column and the id hold what they held.
\<close>

lemma set_column_other:
  "set_column key v r = Some r' \<Longrightarrow>
     pid r' = pid r \<and>
     product_name r' = (if key = ''product_name'' then v else product_name r) \<and>
     category_id r' = (if key = ''category_id'' then v else category_id r) \<and>
     supplier_id r' = (if key = ''supplier_id'' then v else supplier_id r) \<and>
     quantity r' = (if key = ''quantity'' then the (bind_quantity v) else quantity r) \<and>
     price r' = (if key = ''price'' then v else price r) \<and>
     location r' = (if key = ''location'' then v else location r)"
  by (auto simp: set_column_def split: if_splits)

lemma set_columns_fields:
  "distinct (map fst kvs) \<Longrightarrow> set_columns kvs r = Some r' \<Longrightarrow>
     pid r' = pid r \<and>
     product_name r' = (case map_of kvs ''product_name'' of Some v \<Rightarrow> v | None \<Rightarrow> product_name r) \<and>
     category_id r' = (case map_of kvs ''category_id'' of Some v \<Rightarrow> v | None \<Rightarrow> category_id r) \<and>
     supplier_id r' = (case map_of kvs ''supplier_id'' of Some v \<Rightarrow> v | None \<Rightarrow> supplier_id r) \<and>
     quantity r' = (case map_of kvs ''quantity'' of Some v \<Rightarrow> the (bind_quantity v) | None \<Rightarrow> quantity r) \<and>
     price r' = (case map_of kvs ''price'' of Some v \<Rightarrow> v | None \<Rightarrow> price r) \<and>
     location r' = (case map_of kvs ''location'' of Some v \<Rightarrow> v | None \<Rightarrow> location r)"
proof (induction kvs arbitrary: r)
  case Nil
  then show ?case by simp
next
  case (Cons kv kvs)
  obtain key v where kv: "kv = (key, v)" by (cases kv)
  from Cons.prems(2) kv obtain r1 where 1: "set_column key v r = Some r1"
    and 2: "set_columns kvs r1 = Some r'" by (auto split: option.splits)
  from Cons.prems(1) kv have d: "distinct (map fst kvs)" and n: "map_of kvs key = None"
    by (simp_all add: map_of_eq_None_iff)
  note ih = Cons.IH [OF d 2]
  note c = set_column_other [OF 1]
  show ?case
    using ih c n kv by (auto split: option.splits)
qed

lemma map_of_submitted:
  "map_of (submitted keys body) k = (if k \<in> set keys then map_of body k else None)"
  by (induction keys) (auto split: option.splits)

lemma update_where_id_rows:
  "update_where_id kvs i rows = Some rows' \<Longrightarrow>
     list_all2 (\<lambda>r r'. if pid r = i then set_columns kvs r = Some r' else r' = r) rows rows'"
proof (induction rows arbitrary: rows')
  case Nil
  then show ?case by simp
next
  case (Cons r rows)
  from Cons.prems obtain r1 rest
    where 1: "(if pid r = i then set_columns kvs r else Some r) = Some r1"
      and 2: "update_where_id kvs i rows = Some rest" and 3: "rows' = r1 # rest"
    by (auto split: option.splits)
  from Cons.IH [OF 2] 1 3 show ?case by (auto split: if_splits)
qed

subsection \<open>The unique constraint on sku\<close>

text \<open>
  When the table carries the unique constraint, the skus stay pairwise different under
  every sequence of requests: the constraint, not the check of the update route, refuses
  the statement that would store an sku twice.
\<close>

lemma set_column_sku:
  "set_column key v r = Some r' \<Longrightarrow> sku r' = (if key = ''sku'' then v else sku r)"
  by (auto simp: set_column_def split: if_splits)

lemma set_columns_sku:
  "distinct (map fst kvs) \<Longrightarrow> set_columns kvs r = Some r' \<Longrightarrow>
     sku r' = (case map_of kvs ''sku'' of Some k \<Rightarrow> k | None \<Rightarrow> sku r)"
proof (induction kvs arbitrary: r)
  case Nil
  then show ?case by simp
next
  case (Cons kv kvs)
  obtain key v where kv: "kv = (key, v)" by (cases kv)
  from Cons.prems(2) kv obtain r1 where 1: "set_column key v r = Some r1"
    and 2: "set_columns kvs r1 = Some r'" by (auto split: option.splits)
  from Cons.prems(1) kv have d: "distinct (map fst kvs)" and n: "key \<notin> fst ` set kvs"
    by simp_all
  from Cons.IH [OF d 2]
  have ih: "sku r' = (case map_of kvs ''sku'' of Some k \<Rightarrow> k | None \<Rightarrow> sku r1)" .
  show ?case
  proof (cases "key = ''sku''")
    case True
    with n have "map_of kvs ''sku'' = None" by (simp add: map_of_eq_None_iff)
    with ih set_column_sku [OF 1] True kv show ?thesis by simp
  next
    case False
    with ih set_column_sku [OF 1] kv show ?thesis by (simp split: option.splits)
  qed
qed

lemma update_where_id_skus:
  "distinct (map fst kvs) \<Longrightarrow> update_where_id kvs i rows = Some rows' \<Longrightarrow>
     map sku rows' =
       map (\<lambda>r. if pid r = i then (case map_of kvs ''sku'' of Some k \<Rightarrow> k | None \<Rightarrow> sku r)
                else sku r) rows"
proof (induction rows arbitrary: rows')
  case Nil
  then show ?case by simp
next
  case (Cons r rows)
  from Cons.prems(2) obtain r1 rest
    where 1: "(if pid r = i then set_columns kvs r else Some r) = Some r1"
      and 2: "update_where_id kvs i rows = Some rest" and 3: "rows' = r1 # rest"
    by (auto split: option.splits)
  from 1 Cons.prems(1)
  have "sku r1 = (if pid r = i then (case map_of kvs ''sku'' of Some k \<Rightarrow> k | None \<Rightarrow> sku r)
                  else sku r)"
    by (auto dest: set_columns_sku split: if_splits)
  with Cons.IH [OF Cons.prems(1) 2] 3 show ?case by simp
qed

lemma distinct_overwrite:
  "distinct (map g rows) \<Longrightarrow> length (filter (\<lambda>r. h r = k) rows) \<le> 1 \<Longrightarrow>
   (\<forall>r. h r = g r \<or> h r = k) \<Longrightarrow> distinct (map h rows)"
proof (induction rows)
  case Nil
  then show ?case by simp
next
  case (Cons r rows)
  have c: "length (filter (\<lambda>r. h r = k) rows) \<le> 1"
    using Cons.prems(2) by (simp split: if_splits)
  from Cons have ih: "distinct (map h rows)" using c by simp
  have "h r \<notin> h ` set rows"
  proof
    assume "h r \<in> h ` set rows"
    then obtain r' where r': "r' \<in> set rows" "h r = h r'" by auto
    show False
    proof (cases "h r = k")
      case True
      then have "filter (\<lambda>r. h r = k) rows = []" using Cons.prems(2) by simp
      with r' True show False by (auto simp: filter_empty_conv)
    next
      case False
      with Cons.prems(3) r' have "g r = g r'" by metis
      with Cons.prems(1) r'(1) show False by auto
    qed
  qed
  with ih show ?case by simp
qed

lemma exec_update_distinct:
  assumes "exec_update True kvs i rows = Some (rows', n)" and "distinct (map fst kvs)"
    and "distinct (map sku rows)"
  shows "distinct (map sku rows')"
proof -
  from assms(1) have u: "update_where_id kvs i rows = Some rows'"
    and n: "n = length (select_by_id i rows)"
    by (auto simp: exec_update_def Let_def split: option.splits if_splits)
  note m = update_where_id_skus [OF assms(2) u]
  show ?thesis
  proof (cases "map_of kvs ''sku''")
    case None
    with m have "map sku rows' = map sku rows" by simp
    with assms(3) show ?thesis by simp
  next
    case (Some k)
    show ?thesis
    proof (cases "n = 0")
      case True
      with n have "\<forall>r\<in>set rows. pid r \<noteq> i"
        by (auto simp: select_by_id_def filter_empty_conv)
      with m have "map sku rows' = map sku rows" by (auto intro: map_cong)
      with assms(3) show ?thesis by simp
    next
      case False
      with assms(1) Some n u have "\<not> 1 < length (select_by_sku k rows')"
        by (auto simp: exec_update_def Let_def split: option.splits if_splits)
      then have cnt: "length (filter (\<lambda>y. y = k) (map sku rows')) \<le> 1"
        by (simp add: select_by_sku_def filter_map comp_def)
      have e: "map sku rows' = map (\<lambda>r. if pid r = i then k else sku r) rows"
        using m Some by simp
      have c: "length (filter (\<lambda>r. (if pid r = i then k else sku r) = k) rows) \<le> 1"
        using cnt unfolding e by (simp add: filter_map comp_def)
      have "distinct (map (\<lambda>r. if pid r = i then k else sku r) rows)"
        by (rule distinct_overwrite [OF assms(3) c]) simp
      with e show ?thesis by simp
    qed
  qed
qed

lemma handle_sku_unique: "sku_unique (handle f r s) = sku_unique s"
  by (cases r)
     (auto simp: add_product_def add_insert_def update_product_def delete_product_def
        adjust_quantity_def Let_def commit_def rollback_def ev_def logAudit_def
        split: option.splits list.splits prod.splits jv.splits)

lemma handle_keeps_skus_distinct:
  assumes "sku_unique s" and "distinct (map sku (products s))"
  shows "distinct (map sku (products (handle f r s)))"
proof (cases r)
  case (Add body)
  show ?thesis
  proof (cases "add_product f body s")
    case (Pair res s')
    show ?thesis
    proof (cases res)
      case (Inl e)
      with Pair add_product_failure [of f body s e] assms(2) Add show ?thesis by simp
    next
      case (Inr n)
      with Pair add_product_success [of f body s n s'] obtain row
        where "products s' = products s @ [row]"
          and "select_by_sku (sku row) (products s) = []"
        by auto
      then have "products s' = products s @ [row]" and "sku row \<notin> sku ` set (products s)"
        by (auto simp: select_by_sku_def filter_empty_conv)
      with assms(2) Pair Add show ?thesis by simp
    qed
  qed
next
  case (Update i body)
  show ?thesis
  proof (cases "update_product f i body s")
    case (Pair res s')
    show ?thesis
    proof (cases res)
      case (Inl e)
      with Pair update_product_failure [of f i body s e] assms(2) Update show ?thesis by simp
    next
      case (Inr u)
      with Pair update_product_success [of f i body s u s'] assms(1)
      obtain updates n where c: "collect_updates allowed body = Some updates"
        and e: "exec_update True updates i (products s) = Some (products s', n)"
        by auto
      from collect_updates_Some [OF c] submitted_distinct [of allowed body]
      have "distinct (map fst updates)" by (simp add: allowed_def)
      from exec_update_distinct [OF e this assms(2)]
      have "distinct (map sku (products s'))" .
      with Pair Update show ?thesis by simp
    qed
  qed
next
  case (Delete i body q)
  show ?thesis
  proof (cases "delete_product f i body q s")
    case (Pair res s')
    show ?thesis
    proof (cases res)
      case (Inl e)
      with Pair delete_product_failure [of f i body q s e] assms(2) Delete show ?thesis
        by simp
    next
      case (Inr u)
      with Pair delete_product_success [of f i body q s u s'] assms(2) Delete show ?thesis
        by (simp add: delete_where_id_def distinct_map_filter)
    qed
  qed
next
  case (Adjust i body)
  have "map sku (products (snd (adjust_quantity f i body s))) = map sku (products s)"
    unfolding adjust_quantity_def
    by (auto simp: Let_def exec_update_quantity logAudit_def commit_def comp_def
        split: option.splits jv.splits list.splits intro: map_cong)
  with assms(2) Adjust show ?thesis by simp
qed

section \<open>The claims\<close>

text \<open>
  C1. Atomicity of a mutation and its audit entry, at a commit that fails. The add route
  is called on the empty store with a valid product, the audit append succeeds and
  \<^verbatim>\<open>conn.commit()\<close> throws: the call answers with a storage error and no product row
  is left, but the ADD entry for id 1, which \<^verbatim>\<open>logAudit\<close> wrote through the pool and
  not through the route's connection, stays in the audit log.
\<close>

theorem add_commit_fault_keeps_audit_entry:
  "fst (add_product commit_fault widget (empty_store True)) = Inl StorageError \<and>
   products (snd (add_product commit_fault widget (empty_store True))) = [] \<and>
   map a_action (inventory_audit (snd (add_product commit_fault widget (empty_store True))))
     = [ADD] \<and>
   map a_product_id (inventory_audit (snd (add_product commit_fault widget (empty_store True))))
     = [Some 1]"
  by (simp add: route_defs widget_def commit_fault_def)

theorem add_commit_fault_keeps_audit_entry_witness:
  "inventory_audit (snd (add_product commit_fault widget (empty_store True))) \<noteq>
     inventory_audit (empty_store True)"
  using add_commit_fault_keeps_audit_entry by (auto simp: empty_store_def)

text \<open>
  C2. Quantities below zero. An add request with quantity -5 succeeds and stores -5;
  an update request with quantity -3 on a product with quantity 5 succeeds and stores -3.
  Only the adjust route floors the quantity at zero.
\<close>

theorem negative_quantity_stored:
  "fst (add_product no_faults negative_widget (empty_store True)) = Inr 1 \<and>
   stored_quantity (snd (add_product no_faults negative_widget (empty_store True))) 1
     = Some (- 5) \<and>
   stored_quantity (widget_store True) 1 = Some 5 \<and>
   fst (update_product no_faults 1 [(''quantity'', JNum (- 3))] (widget_store True)) = Inr () \<and>
   stored_quantity
     (snd (update_product no_faults 1 [(''quantity'', JNum (- 3))] (widget_store True))) 1
     = Some (- 3)"
  by (simp add: route_defs negative_widget_def stored_quantity_def widget_store_rows)

theorem negative_quantity_stored_witness:
  "\<exists>q<0. stored_quantity (snd (add_product no_faults negative_widget (empty_store True))) 1
            = Some q"
  using negative_quantity_stored by simp

text \<open>
  C3. Uniqueness of the sku. On a products table whose sku column carries the constraints
  of the specification (unique, non-null), if no two products hold the same sku, then no
  two products hold the same sku after
  any sequence of add, update, delete and adjust requests, whatever bodies the callers
  send and whichever calls fail. For an empty or otherwise falsy sku the update route skips
  its own check, and it is the constraint that refuses the statement.
\<close>

theorem unique_constraint_keeps_skus_distinct:
  "sku_unique s \<Longrightarrow> distinct (map sku (products s)) \<Longrightarrow>
     distinct (map sku (products (serve rs s)))"
proof (induction rs arbitrary: s)
  case Nil
  then show ?case by simp
next
  case (Cons fr rs)
  obtain f r where fr: "fr = (f, r)" by (cases fr)
  from Cons.prems
  have "sku_unique (handle f r s)" and "distinct (map sku (products (handle f r s)))"
    by (simp_all add: handle_sku_unique handle_keeps_skus_distinct)
  from Cons.IH [OF this] fr show ?case by simp
qed

theorem unique_constraint_keeps_skus_distinct_witness:
  "sku_unique (empty_store True) \<and>
   distinct (map sku (products (empty_store True))) \<and>
   map sku (products (serve blank_sku_requests (empty_store True))) = [JStr [], JStr ''SKU-2''] \<and>
   distinct (map sku (products (serve blank_sku_requests (empty_store True))))"
proof -
  have u: "sku_unique (empty_store True)"
    and d: "distinct (map sku (products (empty_store True)))"
    by (simp_all add: empty_store_def)
  have 1: "handle no_faults (Add widget) (empty_store True) = widget_store True"
    by (simp add: widget_store_def)
  have 2: "handle no_faults (Add gadget) (widget_store True) = two_products True"
    by (simp add: two_products_def)
  have 3: "handle no_faults (Update 1 blank_sku) (two_products True) = blank_sku_store True"
    by (simp add: blank_sku_store_def)
  have 4: "map sku (products (handle no_faults (Update 2 blank_sku) (blank_sku_store True))) =
             [JStr [], JStr ''SKU-2'']"
    by (simp add: update_product_def blank_sku_store_rows blank_sku_def
        allowed_def hasOwnProperty_def exec_update_def select_by_id_def select_by_sku_def
        select_sku_other_def set_column_def logAudit_def no_faults_def commit_def ev_def Let_def)
  have e: "serve blank_sku_requests (empty_store True) =
             handle no_faults (Update 2 blank_sku) (blank_sku_store True)"
    using 1 2 3 by (simp add: blank_sku_requests_def)
  from unique_constraint_keeps_skus_distinct [OF u d, of blank_sku_requests] u d 4 e
  show ?thesis by simp
qed

text \<open>
  C4. A sequence of successful adjust calls on one product that starts at quantity \<open>q0\<close>,
  with integer deltas and with the quantity, every delta and every sum the calls compute at
  most \<open>2^53\<close> in absolute value, leaves the quantity obtained by adding the deltas one
  at a time, in the order the calls were served, with the floor at zero after each call.
  When the running total never goes below zero this is \<open>max 0 (q0 + d1 + ... + dn)\<close>.
\<close>

theorem adjust_sequence_clamped:
  assumes "run_adjusts i calls s = Some s'" and "stored_quantity s i = Some q0"
    and "exact_run q0 (map (delta_of \<circ> snd) calls)"
  shows "stored_quantity s' i = Some (clamped_sum q0 (map (delta_of \<circ> snd) calls)) \<and>
         (never_negative q0 (map (delta_of \<circ> snd) calls) \<longrightarrow>
            stored_quantity s' i = Some (max 0 (q0 + sum_list (map (delta_of \<circ> snd) calls))))"
proof -
  have a: "stored_quantity s' i = Some (clamped_sum q0 (map (delta_of \<circ> snd) calls))"
    using assms by (rule run_adjusts_quantity)
  show ?thesis
  proof (intro conjI impI)
    show "stored_quantity s' i = Some (clamped_sum q0 (map (delta_of \<circ> snd) calls))"
      by (rule a)
  next
    assume "never_negative q0 (map (delta_of \<circ> snd) calls)"
    from clamped_sum_never_negative [OF this] a
    show "stored_quantity s' i = Some (max 0 (q0 + sum_list (map (delta_of \<circ> snd) calls)))"
      by simp
  qed
qed

theorem adjust_sequence_clamped_witness:
  "stored_quantity (widget_store True) 1 = Some 5 \<and>
   exact_run 5 (map (delta_of \<circ> snd) small_moves) \<and>
   never_negative 5 (map (delta_of \<circ> snd) small_moves) \<and>
   (\<exists>s'. run_adjusts 1 small_moves (widget_store True) = Some s' \<and>
         stored_quantity s' 1 = Some (max 0 (5 + sum_list (map (delta_of \<circ> snd) small_moves))))"
proof -
  have q: "stored_quantity (widget_store True) 1 = Some 5"
    by (rule widget_quantity)
  obtain s' where r: "run_adjusts 1 small_moves (widget_store True) = Some s'"
    using run_two_adjusts [OF q, of "- 2" 4]
    by (auto simp: small_moves_def in_exact_range_def)
  have e: "exact_run 5 (map (delta_of \<circ> snd) small_moves)"
    by (simp add: small_moves_def delta_of_def in_exact_range_def)
  have n: "never_negative 5 (map (delta_of \<circ> snd) small_moves)"
    by (simp add: small_moves_def delta_of_def)
  from adjust_sequence_clamped [OF r q e] n
  have "stored_quantity s' 1 = Some (max 0 (5 + sum_list (map (delta_of \<circ> snd) small_moves)))"
    by blast
  with r q e n show ?thesis by blast
qed

text \<open>
  The claim as it was stated fails: from quantity 5, the deltas -8 and 3 served in this
  order leave 3, and served in the other order leave 0, while
  \<open>max 0 (5 + (-8) + 3)\<close> is 0.
\<close>

theorem adjust_order_counterexample:
  "stored_quantity (widget_store True) 1 = Some 5 \<and>
   map (delta_of \<circ> snd) down_then_up = [- 8, 3] \<and>
   map (delta_of \<circ> snd) up_then_down = [3, - 8] \<and>
   (\<exists>s'. run_adjusts 1 down_then_up (widget_store True) = Some s' \<and>
         stored_quantity s' 1 = Some 3 \<and>
         stored_quantity s' 1 \<noteq> Some (max 0 (5 + sum_list (map (delta_of \<circ> snd) down_then_up)))) \<and>
   (\<exists>s'. run_adjusts 1 up_then_down (widget_store True) = Some s' \<and>
         stored_quantity s' 1 = Some 0)"
proof -
  have q: "stored_quantity (widget_store True) 1 = Some 5"
    by (rule widget_quantity)
  obtain s1 where 1: "run_adjusts 1 down_then_up (widget_store True) = Some s1"
    and q1: "stored_quantity s1 1 = Some 3"
    using run_two_adjusts [OF q, of "- 8" 3]
    by (auto simp: down_then_up_def in_exact_range_def)
  obtain s2 where 2: "run_adjusts 1 up_then_down (widget_store True) = Some s2"
    and q2: "stored_quantity s2 1 = Some 0"
    using run_two_adjusts [OF q, of 3 "- 8"]
    by (auto simp: up_then_down_def in_exact_range_def)
  have d: "map (delta_of \<circ> snd) down_then_up = [- 8, 3]"
    "map (delta_of \<circ> snd) up_then_down = [3, - 8]"
    by (simp_all add: down_then_up_def up_then_down_def delta_of_def)
  have "stored_quantity s1 1 \<noteq> Some (max 0 (5 + sum_list (map (delta_of \<circ> snd) down_then_up)))"
    using q1 by (simp add: d)
  with q 1 q1 2 q2 d show ?thesis by blast
qed

text \<open>
  C5. The sku conflict of the update route, with an empty sku. Product 1 holds the empty
  sku and product 2 is updated to the empty sku: the route does not answer with a conflict.
  Without the unique constraint the update succeeds; with it the statement is refused by
  the store and the answer is a storage error.
\<close>

theorem blank_sku_update_no_conflict:
  "map_of blank_sku ''sku'' = Some (JStr []) \<and>
   select_sku_other (JStr []) 2 (products (blank_sku_store False)) \<noteq> [] \<and>
   select_sku_other (JStr []) 2 (products (blank_sku_store True)) \<noteq> [] \<and>
   fst (update_product no_faults 2 blank_sku (blank_sku_store False)) = Inr () \<and>
   fst (update_product no_faults 2 blank_sku (blank_sku_store True)) = Inl StorageError"
  by (simp add: update_product_def blank_sku_store_rows blank_sku_def
      allowed_def hasOwnProperty_def exec_update_def select_by_id_def select_by_sku_def select_sku_other_def
      set_column_def logAudit_def no_faults_def commit_def ev_def Let_def)

theorem blank_sku_update_no_conflict_witness:
  "fst (update_product no_faults 2 blank_sku (blank_sku_store False)) \<noteq> Inl ConflictError \<and>
   fst (update_product no_faults 2 blank_sku (blank_sku_store True)) \<noteq> Inl ConflictError"
  using blank_sku_update_no_conflict by simp

text \<open>
  C6. A single call of the adjust route on an existing product whose stored quantity is
  \<open>q\<close>, with an integer delta \<open>d\<close>, with \<open>q\<close>, \<open>d\<close> and \<open>q + d\<close> at most \<open>2^53\<close> in
  absolute value and no failure of the store, answers with \<open>max 0 (q + d)\<close> and stores
  that same value as the product's quantity.
\<close>

theorem adjust_quantity_clamps:
  assumes "map_of body ''delta'' = Some (JNum d)" and "stored_quantity s i = Some q"
    and "\<not> audit_fails f" and "\<not> commit_fails f"
    and "in_exact_range q" and "in_exact_range d" and "in_exact_range (q + d)"
  shows "fst (adjust_quantity f i body s) = Inr (max 0 (q + d)) \<and>
         stored_quantity (snd (adjust_quantity f i body s)) i = Some (max 0 (q + d))"
  using assms
  unfolding adjust_quantity_def stored_quantity_def
  by (auto simp: Let_def exec_update_quantity select_by_id_set_quantity logAudit_ok
       js_plus_exact double_round_exact split: list.splits)

theorem adjust_quantity_clamps_witness:
  "map_of [(''delta'', JNum (- 10))] ''delta'' = Some (JNum (- 10)) \<and>
   stored_quantity (widget_store True) 1 = Some 5 \<and>
   \<not> audit_fails no_faults \<and> \<not> commit_fails no_faults \<and>
   in_exact_range 5 \<and> in_exact_range (- 10) \<and> in_exact_range (5 + (- 10)) \<and>
   fst (adjust_quantity no_faults 1 [(''delta'', JNum (- 10))] (widget_store True)) = Inr 0 \<and>
   stored_quantity (snd (adjust_quantity no_faults 1 [(''delta'', JNum (- 10))]
     (widget_store True))) 1 = Some 0"
  using adjust_quantity_clamps [of "[(''delta'', JNum (- 10))]" "- 10" "widget_store True" 1 5
      no_faults]
  by (simp add: stored_quantity_def select_by_id_def widget_store_rows no_faults_def
      in_exact_range_def)

text \<open>
  The claim as it was stated, for every numeric delta, fails where the addition of doubles
  rounds: on quantity 5 the delta \<open>2^53\<close> is answered with 9007199254740996, and that is
  the quantity stored, while \<open>max 0 (5 + 2^53)\<close> is 9007199254740997.
\<close>

theorem adjust_rounding_counterexample:
  "stored_quantity (widget_store True) 1 = Some 5 \<and>
   map_of big_delta ''delta'' = Some (JNum 9007199254740992) \<and>
   fst (adjust_quantity no_faults 1 big_delta (widget_store True)) = Inr 9007199254740996 \<and>
   stored_quantity (snd (adjust_quantity no_faults 1 big_delta (widget_store True))) 1
     = Some 9007199254740996 \<and>
   max 0 (5 + 9007199254740992) = (9007199254740997 :: int)"
proof -
  have b: "bit_length 9007199254740997 = 54"
    by (simp add: bit_length.simps)
  have r: "js_plus (double_round 5) 9007199254740992 = 9007199254740996"
    by (simp add: js_plus_def double_round_def in_exact_range_def b Let_def)
  have q: "stored_quantity (widget_store True) 1 = Some 5"
    by (rule widget_quantity)
  have a: "fst (adjust_quantity no_faults 1 big_delta (widget_store True)) = Inr 9007199254740996"
    "stored_quantity (snd (adjust_quantity no_faults 1 big_delta (widget_store True))) 1
       = Some 9007199254740996"
    using r
    by (simp_all add: adjust_quantity_def big_delta_def widget_store_rows select_by_id_def
        exec_update_quantity logAudit_ok no_faults_def stored_quantity_def Let_def)
  from q a show ?thesis by (simp add: big_delta_def)
qed

text \<open>
  C7. The delete route. When no product has the given id, the call answers not found and
  neither the products nor the audit log change. When a product has it and the store does
  not fail, the call succeeds, no row with that id is left, the other rows stay, and the
  audit log grows by exactly one DELETE entry that refers to the id and carries the name
  and the sku the row had before it was deleted.
\<close>

theorem delete_product_audit:
  "(select_by_id i (products s) = [] \<longrightarrow>
      fst (delete_product f i body q s) = Inl NotFoundError \<and>
      products (snd (delete_product f i body q s)) = products s \<and>
      inventory_audit (snd (delete_product f i body q s)) = inventory_audit s) \<and>
   (\<forall>p rest. select_by_id i (products s) = p # rest \<and> \<not> audit_fails f \<and> \<not> commit_fails f \<longrightarrow>
      fst (delete_product f i body q s) = Inr () \<and>
      products (snd (delete_product f i body q s)) = filter (\<lambda>r. pid r \<noteq> i) (products s) \<and>
      select_by_id i (products (snd (delete_product f i body q s))) = [] \<and>
      (\<exists>e. inventory_audit (snd (delete_product f i body q s)) = inventory_audit s @ [e] \<and>
           a_action e = DELETE \<and> a_product_id e = Some i \<and>
           a_details e = JObj [(''product_name'', product_name p), (''sku'', sku p)]))"
  unfolding delete_product_def
  by (auto simp: Let_def logAudit_ok delete_where_id_def select_by_id_def)

theorem delete_product_audit_witness:
  "select_by_id 9 (products (widget_store True)) = [] \<and>
   fst (delete_product no_faults 9 None None (widget_store True)) = Inl NotFoundError \<and>
   inventory_audit (snd (delete_product no_faults 9 None None (widget_store True))) =
     inventory_audit (widget_store True) \<and>
   select_by_id 1 (products (widget_store True)) = products (widget_store True) \<and>
   fst (delete_product no_faults 1 None None (widget_store True)) = Inr () \<and>
   products (snd (delete_product no_faults 1 None None (widget_store True))) = [] \<and>
   (\<exists>e. inventory_audit (snd (delete_product no_faults 1 None None (widget_store True))) =
          inventory_audit (widget_store True) @ [e] \<and> a_action e = DELETE \<and>
          a_product_id e = Some 1 \<and>
          a_details e = JObj [(''product_name'', JStr ''Widget''), (''sku'', JStr ''SKU-1'')])"
  using delete_product_audit [of 9 "widget_store True" no_faults None None]
    delete_product_audit [of 1 "widget_store True" no_faults None None]
  by (simp add: widget_store_rows select_by_id_def no_faults_def)

text \<open>
  C8. An add request whose \<open>product_name\<close> or \<open>sku\<close> is absent or the empty string is
  answered with a validation error, and the store is returned exactly as it was: no
  connection is taken, no transaction is begun, no row is inserted and no audit entry is
  written.
\<close>

theorem add_product_validation:
  assumes "map_of body ''product_name'' = None \<or> map_of body ''product_name'' = Some (JStr []) \<or>
           map_of body ''sku'' = None \<or> map_of body ''sku'' = Some (JStr [])"
  shows "add_product f body s = (Inl ValidationError, s)"
  using assms unfolding add_product_def
  by (auto simp: Let_def split: option.splits)

theorem add_product_validation_witness:
  "map_of [(''product_name'', JStr ''Widget''), (''sku'', JStr [])] ''sku'' = Some (JStr []) \<and>
   add_product no_faults [(''product_name'', JStr ''Widget''), (''sku'', JStr [])]
     (widget_store True) = (Inl ValidationError, widget_store True)"
  using add_product_validation
    [of "[(''product_name'', JStr ''Widget''), (''sku'', JStr [])]" no_faults "widget_store True"]
  by simp

text \<open>
  C9. The allow-list of the update route, with a field named \<^verbatim>\<open>hasOwnProperty\<close>. The
  body carries the quantity 20 and a field \<^verbatim>\<open>hasOwnProperty\<close>, which is not on the
  allow-list: the handler throws before it takes a connection, the store is returned as it
  was and the quantity stays 5, while the same request without that field succeeds and
  stores 20. A body with that field alone, which has no field of the allow-list, is not
  answered with a validation error either.
\<close>

theorem shadowed_update_throws:
  "map_of shadowed_update ''quantity'' = Some (JNum 20) \<and>
   update_product no_faults 1 shadowed_update (widget_store True) =
     (Inl UncaughtTypeError, widget_store True) \<and>
   stored_quantity (widget_store True) 1 = Some 5 \<and>
   fst (update_product no_faults 1 [(''quantity'', JNum 20)] (widget_store True)) = Inr () \<and>
   stored_quantity (snd (update_product no_faults 1 [(''quantity'', JNum 20)]
     (widget_store True))) 1 = Some 20 \<and>
   list_all (\<lambda>k. map_of shadowed_only k = None) allowed \<and>
   update_product no_faults 1 shadowed_only (widget_store True) =
     (Inl UncaughtTypeError, widget_store True)"
proof -
  have 1: "update_product no_faults 1 shadowed_update (widget_store True) =
             (Inl UncaughtTypeError, widget_store True)"
    by (rule update_product_throws [where v = "JNum 1"]) (simp add: shadowed_update_def)
  have 2: "update_product no_faults 1 shadowed_only (widget_store True) =
             (Inl UncaughtTypeError, widget_store True)"
    by (rule update_product_throws [where v = "JNum 1"]) (simp add: shadowed_only_def)
  have 3: "fst (update_product no_faults 1 [(''quantity'', JNum 20)] (widget_store True)) = Inr ()"
    "stored_quantity (snd (update_product no_faults 1 [(''quantity'', JNum 20)]
       (widget_store True))) 1 = Some 20"
    by (simp_all add: update_product_def widget_store_rows stored_quantity_def
        allowed_def hasOwnProperty_def exec_update_def select_by_id_def select_by_sku_def
        select_sku_other_def set_column_def logAudit_def no_faults_def commit_def ev_def Let_def)
  have 4: "list_all (\<lambda>k. map_of shadowed_only k = None) allowed"
    "map_of shadowed_update ''quantity'' = Some (JNum 20)"
    by (simp_all add: allowed_def shadowed_only_def shadowed_update_def)
  from 1 2 3 4 widget_quantity [of True] show ?thesis by simp
qed

theorem shadowed_update_throws_witness:
  "fst (update_product no_faults 1 shadowed_update (widget_store True)) \<noteq> Inr () \<and>
   fst (update_product no_faults 1 shadowed_only (widget_store True)) \<noteq> Inl ValidationError"
  using shadowed_update_throws by simp

text \<open>
  C10. The order of the sku check and the not-found answer, with an empty sku. Product 1
  holds the empty sku, no product has id 7, and the update of id 7 to the empty sku is
  answered with not found, not with a conflict: the sku check that stands before the UPDATE
  statement is skipped for a falsy sku.
\<close>

theorem blank_sku_update_not_found:
  "map_of blank_sku ''sku'' = Some (JStr []) \<and>
   map sku (products (blank_sku_store True)) = [JStr [], JStr ''SKU-2''] \<and>
   map pid (products (blank_sku_store True)) = [1, 2] \<and>
   fst (update_product no_faults 7 blank_sku (blank_sku_store True)) = Inl NotFoundError \<and>
   fst (update_product no_faults 7 blank_sku (blank_sku_store False)) = Inl NotFoundError"
  by (simp add: update_product_def blank_sku_store_rows blank_sku_def
      allowed_def hasOwnProperty_def exec_update_def select_by_id_def select_by_sku_def
      select_sku_other_def set_column_def logAudit_def no_faults_def commit_def ev_def Let_def)

theorem blank_sku_update_not_found_witness:
  "fst (update_product no_faults 7 blank_sku (blank_sku_store True)) \<noteq> Inl ConflictError \<and>
   (\<exists>r\<in>set (products (blank_sku_store True)). sku r = JStr []) \<and>
   7 \<notin> pid ` set (products (blank_sku_store True))"
  using blank_sku_update_not_found by (simp add: blank_sku_store_rows)

end
